theory Spec2Isabelle
  imports Complex_Main "HOL-Library.Multiset"
begin

section \<open>Stress spectrum generator: numbers, errors and text\<close>

text \<open>
  The program \<^verbatim>\<open>stress-spectrum.py\<close> computes with Python numbers. In this development
  a Python \<^verbatim>\<open>float\<close> (and an \<^verbatim>\<open>int\<close> used where a float is expected) is a \<^typ>\<open>real\<close>:
  arithmetic is exact, there is no rounding to 53 bits, no infinity and no NaN. The result of
  \<^verbatim>\<open>math.ceil\<close> is an \<^typ>\<open>int\<close>. Every \<^verbatim>\<open>raise\<close> that exact arithmetic can reach is a
  value of \<open>py_error\<close>.
\<close>

datatype py_error = ValueError | ZeroDivisionError | KeyError | OSError

subsection \<open>Python built-ins used by the program\<close>




text \<open>\<^verbatim>\<open>math.ceil\<close>.\<close>

definition math_ceil :: "real \<Rightarrow> int" where
  "math_ceil x = \<lceil>x\<rceil>"

text \<open>\<^verbatim>\<open>str\<close> of an int: decimal digits, with a minus sign when negative.\<close>

definition digit_char :: "nat \<Rightarrow> char" where
  "digit_char d = ''0123456789'' ! d"

fun str_nat :: "nat \<Rightarrow> string" where
  "str_nat n = (if n < 10 then [digit_char n] else str_nat (n div 10) @ [digit_char (n mod 10)])"

declare str_nat.simps [simp del]

definition str_int :: "int \<Rightarrow> string" where
  "str_int i = (if i < 0 then ''-'' @ str_nat (nat (- i)) else str_nat (nat i))"

text \<open>\<^verbatim>\<open>s.ljust(n)\<close> and right alignment to a minimum width (the default alignment of a
  number under a format width).\<close>

definition ljust :: "nat \<Rightarrow> string \<Rightarrow> string" where
  "ljust n s = s @ replicate (n - length s) CHR '' ''"

definition rjust :: "nat \<Rightarrow> string \<Rightarrow> string" where
  "rjust n s = replicate (n - length s) CHR '' '' @ s"

text \<open>The format specification \<^verbatim>\<open>4.2f\<close>: fixed notation with two digits after the point,
  the value rounded to the nearest hundredth (a tie goes to the even neighbour), the sign
  taken from the value itself, and the whole right-aligned in at least four characters.\<close>

definition round_half_even :: "real \<Rightarrow> int" where
  "round_half_even x =
     (let f = \<lfloor>x\<rfloor>; d = x - of_int f
      in if d < 1 / 2 then f else if d > 1 / 2 then f + 1 else if even f then f else f + 1)"

definition fixed2 :: "real \<Rightarrow> string" where
  "fixed2 x =
     (let q = nat (round_half_even (\<bar>x\<bar> * 100))
      in (if x < 0 then ''-'' else []) @ str_nat (q div 100) @ ''.''
         @ [digit_char (q div 10 mod 10), digit_char (q mod 10)])"

definition format_4_2f :: "real \<Rightarrow> string" where
  "format_4_2f x = rjust 4 (fixed2 x)"

section \<open>The data model\<close>

text \<open>\<^verbatim>\<open>Event = collections.namedtuple("Event", ["neq", "s_min", "s_max", "desc"])\<close>\<close>

record Event =
  neq :: real
  s_min :: real
  s_max :: real
  desc :: string

text \<open>The attributes that \<^verbatim>\<open>StressSpectrum.__init__\<close> sets; the source spells the prestress
  attribute \<^verbatim>\<open>prestres\<close>.\<close>

record StressSpectrum =
  filename :: string
  prestres :: real
  sf_stress :: real
  sf_cycles :: real
  events :: "Event list"

definition init :: "string \<Rightarrow> real \<Rightarrow> real \<Rightarrow> real \<Rightarrow> StressSpectrum" where
  "init fname prestress sfs sfc =
     \<lparr>filename = fname, prestres = prestress, sf_stress = sfs, sf_cycles = sfc, events = []\<rparr>"

text \<open>The state a method call runs in: the collector object, the files on disk (path to
  contents), which paths can be opened for writing, and the lines printed so far.\<close>

record state =
  spectrum :: StressSpectrum
  files :: "string \<Rightarrow> string option"
  writable :: "string \<Rightarrow> bool"
  stdout :: "string list"



section \<open>The interpolator\<close>

text \<open>
  Modelled from the spec: \<^verbatim>\<open>scipy.interpolate.interp1d\<close> and the NumPy routine it calls
  are library code that is not part of the repository. Following the specification of the
  interpolator, \<open>interp1d x y\<close> requires at least two points, fails with ValueError when the
  argument lies below the first or above the last abscissa (no extrapolation), and otherwise
  is the piecewise-linear function through the points \<open>(x ! i, y ! i)\<close>, with \<open>x\<close> ascending.
  \<open>np_interp\<close> finds the segment \<open>x ! j \<le> a < x ! (j + 1)\<close>, returns \<open>y ! j\<close> itself when
  \<open>a\<close> is the abscissa \<open>x ! j\<close> and \<open>slope * (a - x ! j) + y ! j\<close> otherwise; from the last
  abscissa on it returns the last ordinate.
\<close>

fun np_interp :: "real \<Rightarrow> real list \<Rightarrow> real list \<Rightarrow> real" where
  "np_interp a (x0 # x1 # xs) (y0 # y1 # ys) =
     (if a < x1 then (if a = x0 then y0 else (y1 - y0) / (x1 - x0) * (a - x0) + y0)
      else np_interp a (x1 # xs) (y1 # ys))"
| "np_interp a [x0] (y0 # ys) = y0"
| "np_interp a xs ys = 0"

text \<open>The last equation of \<open>np_interp\<close> covers an empty \<open>x\<close> and a \<open>y\<close> shorter than \<open>x\<close>
  only; \<open>interp1d\<close> rejects both before it evaluates.\<close>

definition interp1d :: "real list \<Rightarrow> real list \<Rightarrow> real \<Rightarrow> py_error + real" where
  "interp1d x y x_new =
     (if length x \<noteq> length y then Inl ValueError
      else if length x < 2 then Inl ValueError
      else if x_new < hd x \<or> x_new > last x then Inl ValueError
      else Inr (np_interp x_new x y))"

text \<open>A \<^verbatim>\<open>Dict[float, float]\<close> is an association list in insertion order; a dict holds each
  key once, so the tables of interest have distinct keys. \<^verbatim>\<open>table[k]\<close> raises KeyError
  for a key the table does not hold.\<close>

type_synonym table = "(real \<times> real) list"

definition getitem :: "table \<Rightarrow> real \<Rightarrow> py_error + real" where
  "getitem t k = (case map_of t k of None \<Rightarrow> Inl KeyError | Some v \<Rightarrow> Inr v)"

text \<open>The list comprehension \<^verbatim>\<open>[table[_] for _ in x]\<close>: the first failing lookup ends it.\<close>

fun getitems :: "table \<Rightarrow> real list \<Rightarrow> py_error + real list" where
  "getitems t [] = Inr []"
| "getitems t (k # ks) =
     (case getitem t k of
        Inl e \<Rightarrow> Inl e
      | Inr v \<Rightarrow> (case getitems t ks of Inl e \<Rightarrow> Inl e | Inr vs \<Rightarrow> Inr (v # vs)))"

definition linear_interpolation :: "table \<Rightarrow> real \<Rightarrow> py_error + real" where
  "linear_interpolation t argument =
     (let args = sort (map fst t);
          x = args
      in case getitems t x of
           Inl e \<Rightarrow> Inl e
         | Inr y \<Rightarrow> interp1d x y argument)"

section \<open>The event factories\<close>

definition table_n :: table where
  "table_n = [(2, 222 / 1000), (3, 139 / 1000), (4, 99 / 1000), (5, 77 / 1000), (6, 66 / 1000)]"

definition RandomEvent :: "real \<Rightarrow> real \<Rightarrow> real \<Rightarrow> real \<Rightarrow> string \<Rightarrow> py_error + Event" where
  "RandomEvent stress fn duration n dsc =
     (case linear_interpolation table_n n of
        Inl e \<Rightarrow> Inl e
      | Inr c \<Rightarrow>
          (let neq0 = fn * duration * c;
               neq1 = math_ceil neq0
           in Inr \<lparr>neq = of_int neq1, s_min = - stress, s_max = stress, desc = dsc\<rparr>))"

text \<open>Python raises ZeroDivisionError when the divisor of \<^verbatim>\<open>/\<close> is zero.\<close>

definition SineEvent :: "real \<Rightarrow> real \<Rightarrow> real \<Rightarrow> string \<Rightarrow> py_error + Event" where
  "SineEvent stress_1g load sweep_rate dsc =
     (let df = 100 - 20
      in if sweep_rate * ln 2 = 0 then Inl ZeroDivisionError
         else
           (let neq0 = 60 / (sweep_rate * ln 2) * df;
                neq1 = math_ceil neq0;
                stress = load * stress_1g
            in Inr \<lparr>neq = of_int neq1, s_min = - stress, s_max = stress, desc = dsc\<rparr>))"


section \<open>The collector's reports\<close>


text \<open>\<open>save\<close>: the file handle is the text written so far and the loop runs over the events
  in order. Opening a path that cannot be written raises OSError before anything is written;
  leaving the \<^verbatim>\<open>with\<close> block stores the text as the file's new contents.\<close>

fun save_loop :: "StressSpectrum \<Rightarrow> bool \<Rightarrow> Event list \<Rightarrow> string \<times> string list \<Rightarrow> string \<times> string list" where
  "save_loop self verbose [] (fh, out) = (fh, out)"
| "save_loop self verbose (event # rest) (fh, out) =
     (let smin = sf_stress self * s_min event + prestres self;
          smax = sf_stress self * s_max event + prestres self;
          neq1 = math_ceil (sf_cycles self * neq event);
          s = format_4_2f smax @ ''  '' @ format_4_2f smin @ ''  '' @ str_int neq1;
          fh = fh @ s @ ''\<newline>'';
          out = (if verbose then out @ [ljust 26 s @ '' | '' @ desc event] else out)
      in save_loop self verbose rest (fh, out))"

definition save :: "bool \<Rightarrow> state \<Rightarrow> py_error + state" where
  "save verbose st =
     (let self = spectrum st
      in if \<not> writable st (filename self) then Inl OSError
         else
           (let fh = ''max min cycle format\<newline>'';
                out = (if verbose then stdout st @ [''==============''] else stdout st);
                (fh, out) = save_loop self verbose (events self) (fh, out)
            in Inr (st\<lparr>files := (files st)(filename self \<mapsto> fh), stdout := out\<rparr>)))"

section \<open>Notions used to state the properties\<close>

text \<open>A text with exactly two decimal digits: an optional minus sign, at least one digit,
  a point and two digits.\<close>

definition is_digit :: "char \<Rightarrow> bool" where
  "is_digit c = (c \<in> set ''0123456789'')"


text \<open>The data line of one event, as the format section of the specification gives it.\<close>

definition data_line :: "StressSpectrum \<Rightarrow> Event \<Rightarrow> string" where
  "data_line self e =
     format_4_2f (sf_stress self * s_max e + prestres self) @ ''  '' @
     format_4_2f (sf_stress self * s_min e + prestres self) @ ''  '' @
     str_int \<lceil>sf_cycles self * neq e\<rceil>"

text \<open>A text file as its lines, each ended by a newline.\<close>

definition unlines :: "string list \<Rightarrow> string" where
  "unlines ls = concat (map (\<lambda>l. l @ ''\<newline>'') ls)"

text \<open>A value strictly between two others, whichever of the two is the larger.\<close>

definition strictly_between :: "real \<Rightarrow> real \<Rightarrow> real \<Rightarrow> bool" where
  "strictly_between y0 y1 v = (min y0 y1 < v \<and> v < max y0 y1)"

text \<open>A state with the given collector, no files, every path writable, nothing printed.\<close>

definition fresh_state :: "StressSpectrum \<Rightarrow> state" where
  "fresh_state self = \<lparr>spectrum = self, files = Map.empty, writable = (\<lambda>p. True), stdout = []\<rparr>"

text \<open>Two events with a fractional cycle count among them, used in the examples.\<close>

definition two_events :: "Event list" where
  "two_events = [\<lparr>neq = 5 / 2, s_min = - 1, s_max = 1, desc = ''a''\<rparr>,
                 \<lparr>neq = 8, s_min = - 3, s_max = 2, desc = ''b''\<rparr>]"

section \<open>Facts about the built-ins and the text functions\<close>









lemma is_digit_digit_char: "d < 10 \<Longrightarrow> is_digit (digit_char d)"
proof -
  assume "d < 10"
  then consider "d = 0" | "d = 1" | "d = 2" | "d = 3" | "d = 4" | "d = 5" | "d = 6" | "d = 7"
    | "d = 8" | "d = 9" by force
  then show ?thesis by cases (simp_all add: is_digit_def digit_char_def)
qed

lemma str_nat_digits: "str_nat n \<noteq> [] \<and> list_all is_digit (str_nat n)"
proof (induction n rule: str_nat.induct)
  case (1 n)
  show ?case
  proof (cases "n < 10")
    case True
    then show ?thesis by (subst (1 2) str_nat.simps) (simp add: is_digit_digit_char)
  next
    case False
    with 1 show ?thesis by (subst (1 2) str_nat.simps) (simp add: is_digit_digit_char)
  qed
qed


lemma length_fixed2: "4 \<le> length (fixed2 x)"
proof -
  have "str_nat n \<noteq> []" for n using str_nat_digits by simp
  then have "1 \<le> length (str_nat n)" for n by (simp add: Suc_le_eq)
  from this [of "nat (round_half_even (\<bar>x\<bar> * 100)) div 100"] show ?thesis
    by (simp add: fixed2_def Let_def)
qed

lemma format_4_2f_fixed2: "format_4_2f x = fixed2 x"
  using length_fixed2 [of x] by (simp add: format_4_2f_def rjust_def)



section \<open>Facts about the interpolator\<close>

lemma getitems_keys:
  "set ks \<subseteq> fst ` set t \<Longrightarrow> getitems t ks = Inr (map (\<lambda>k. the (map_of t k)) ks)"
proof (induction ks)
  case Nil
  then show ?case by simp
next
  case (Cons k ks)
  then obtain v where "map_of t k = Some v"
    by (metis insert_subset list.simps(15) map_of_eq_None_iff not_Some_eq)
  with Cons show ?case by (simp add: getitem_def)
qed

lemma linear_interpolation_interp1d:
  "linear_interpolation t a =
     interp1d (sort (map fst t)) (map (\<lambda>k. the (map_of t k)) (sort (map fst t))) a"
  by (simp add: linear_interpolation_def getitems_keys Let_def)

lemma sorted_hd_le: "sorted xs \<Longrightarrow> x \<in> set xs \<Longrightarrow> hd xs \<le> (x::real)"
  by (cases xs) auto

lemma sorted_le_last: "sorted xs \<Longrightarrow> x \<in> set xs \<Longrightarrow> (x::real) \<le> last xs"
  by (induction xs) auto

lemma np_interp_at_key:
  "sorted xs \<Longrightarrow> distinct xs \<Longrightarrow> a \<in> set xs \<Longrightarrow> np_interp a xs (map f xs) = f a"
proof (induction xs)
  case Nil
  then show ?case by simp
next
  case (Cons u us)
  show ?case
  proof (cases us)
    case Nil
    with Cons.prems show ?thesis by simp
  next
    case (Cons v vs)
    show ?thesis
    proof (cases "a = u")
      case True
      with Cons.prems \<open>us = v # vs\<close> show ?thesis by auto
    next
      case False
      with Cons.prems have "a \<in> set us" by simp
      with Cons.prems \<open>us = v # vs\<close> have "v \<le> a" by auto
      with Cons.IH Cons.prems \<open>a \<in> set us\<close> \<open>us = v # vs\<close> show ?thesis by auto
    qed
  qed
qed

lemma np_interp_between:
  "sorted xs \<Longrightarrow> distinct xs \<Longrightarrow> x0 \<in> set xs \<Longrightarrow> x1 \<in> set xs \<Longrightarrow> x0 < a \<Longrightarrow> a < x1 \<Longrightarrow>
   \<forall>k\<in>set xs. \<not> (x0 < k \<and> k < x1) \<Longrightarrow>
   np_interp a xs (map f xs) = (f x1 - f x0) / (x1 - x0) * (a - x0) + f x0"
proof (induction xs)
  case Nil
  then show ?case by simp
next
  case (Cons u us)
  show ?case
  proof (cases us)
    case Nil
    with Cons.prems show ?thesis by auto
  next
    case us: (Cons v vs)
    have uv: "u < v" using Cons.prems(1,2) us by auto
    have ge: "\<forall>k\<in>set us. v \<le> k" using Cons.prems(1) us by auto
    show ?thesis
    proof (cases "a < v")
      case True
      have "x0 = u" using Cons.prems(3,5) True ge by fastforce
      moreover have "x1 = v"
      proof -
        have "x1 \<in> set us" using Cons.prems(4,5,6) \<open>x0 = u\<close> by auto
        then have "v \<le> x1" using ge by simp
        moreover have "\<not> (x0 < v \<and> v < x1)" using Cons.prems(7) us by simp
        ultimately show ?thesis using uv \<open>x0 = u\<close> by simp
      qed
      ultimately show ?thesis using True Cons.prems(5) us by simp
    next
      case False
      have "x1 \<noteq> u" using Cons.prems(5,6) False uv by auto
      then have m1: "x1 \<in> set us" using Cons.prems(4) by simp
      have "\<not> (x0 < v \<and> v < x1)" using Cons.prems(7) us by simp
      then have "x0 \<noteq> u" using uv False Cons.prems(6) by auto
      then have m0: "x0 \<in> set us" using Cons.prems(3) by simp
      have "np_interp a us (map f us) = (f x1 - f x0) / (x1 - x0) * (a - x0) + f x0"
        using Cons.IH Cons.prems m0 m1 by simp
      then show ?thesis using False us by simp
    qed
  qed
qed


lemma convex_step:
  fixes y0 d r :: real
  assumes "0 < r" "r < 1"
  shows "min y0 (y0 + d) \<le> y0 + r * d \<and> y0 + r * d \<le> max y0 (y0 + d)
       \<and> (d \<noteq> 0 \<longrightarrow> min y0 (y0 + d) < y0 + r * d \<and> y0 + r * d < max y0 (y0 + d))"
proof -
  consider "d = 0" | "0 < d" | "d < 0" by linarith
  then show ?thesis
  proof cases
    case 1
    then show ?thesis by simp
  next
    case 2
    then have "0 < r * d" "r * d < d" using assms by simp_all
    then show ?thesis using 2 by (simp add: min_def max_def)
  next
    case 3
    then have "r * d < 0" "d < r * d" using assms by (simp_all add: mult_pos_neg)
    then show ?thesis using 3 by (simp add: min_def max_def)
  qed
qed

lemma segment_between:
  fixes y0 y1 :: real
  assumes "x0 < a" "a < x1"
  shows "min y0 y1 \<le> (y1 - y0) / (x1 - x0) * (a - x0) + y0
       \<and> (y1 - y0) / (x1 - x0) * (a - x0) + y0 \<le> max y0 y1
       \<and> (y0 \<noteq> y1 \<longrightarrow> min y0 y1 < (y1 - y0) / (x1 - x0) * (a - x0) + y0
                      \<and> (y1 - y0) / (x1 - x0) * (a - x0) + y0 < max y0 y1)"
proof -
  define r where "r = (a - x0) / (x1 - x0)"
  have r: "0 < r" "r < 1" using assms by (simp_all add: r_def)
  have eq: "(y1 - y0) / (x1 - x0) * (a - x0) + y0 = y0 + r * (y1 - y0)"
    by (simp add: r_def)
  show ?thesis
    unfolding eq using convex_step [OF r, of y0 "y1 - y0"] by simp
qed

section \<open>Closed forms of the reports\<close>



lemma save_loop_closed:
  "save_loop self v es (fh, out) =
     (fh @ unlines (map (data_line self) es),
      out @ (if v then map (\<lambda>e. ljust 26 (data_line self e) @ '' | '' @ desc e) es else []))"
  by (induction es arbitrary: fh out) (simp_all add: unlines_def data_line_def math_ceil_def Let_def)

lemma save_closed:
  "writable st (filename (spectrum st)) \<Longrightarrow>
   save v st = Inr (st\<lparr>files := (files st)(filename (spectrum st) \<mapsto>
                       unlines (''max min cycle format'' # map (data_line (spectrum st)) (events (spectrum st)))),
                     stdout := stdout st @ (if v then ''=============='' #
                        map (\<lambda>e. ljust 26 (data_line (spectrum st) e) @ '' | '' @ desc e) (events (spectrum st)) else [])\<rparr>)"
  by (simp add: save_def save_loop_closed Let_def unlines_def)

lemma save_unwritable:
  "\<not> writable st (filename (spectrum st)) \<Longrightarrow> save v st = Inl OSError"
  by (simp add: save_def)


lemma data_line_events [simp]: "data_line (self\<lparr>events := es\<rparr>) = data_line self"
  by (simp add: fun_eq_iff data_line_def)



lemma table_n_at_2: "linear_interpolation table_n 2 = Inr (222 / 1000)"
  by (simp add: linear_interpolation_interp1d interp1d_def table_n_def)


lemma interp1d_in_range:
  assumes "2 \<le> length xs" "sorted xs" "distinct xs" "hd xs \<le> a" "a \<le> last xs"
  shows "interp1d xs (map f xs) a = Inr (np_interp a xs (map f xs))"
  using assms by (simp add: interp1d_def)

lemma hd_sort_Min: "xs \<noteq> [] \<Longrightarrow> hd (sort xs) = Min (set (xs::real list))"
proof -
  assume ne: "xs \<noteq> []"
  then have "sort xs \<noteq> []" by (metis length_0_conv length_sort)
  then have "hd (sort xs) \<in> set xs" using hd_in_set [of "sort xs"] by simp
  moreover have "hd (sort xs) \<le> y" if "y \<in> set xs" for y
    using that by (simp add: sorted_hd_le)
  ultimately have "Min (set xs) = hd (sort xs)" by (intro Min_eqI) simp_all
  then show ?thesis by simp
qed

lemma last_sort_Max: "xs \<noteq> [] \<Longrightarrow> last (sort xs) = Max (set (xs::real list))"
proof -
  assume ne: "xs \<noteq> []"
  then have "sort xs \<noteq> []" by (metis length_0_conv length_sort)
  then have "last (sort xs) \<in> set xs" using last_in_set [of "sort xs"] by simp
  moreover have "y \<le> last (sort xs)" if "y \<in> set xs" for y
    using that by (simp add: sorted_le_last)
  ultimately have "Max (set xs) = last (sort xs)" by (intro Max_eqI) simp_all
  then show ?thesis by simp
qed


section \<open>The properties of the specification\<close>

subsection \<open>The saved file\<close>



subsection \<open>The event factories\<close>






text \<open>
  Claim C10. Whenever \<open>RandomEvent\<close> or \<open>SineEvent\<close> returns an event, its \<open>neq\<close> is an
  integer already, so for a collector with \<open>sf_cycles = 1\<close> the rounding
  \<open>\<lceil>sf_cycles * neq\<rceil>\<close> of \<open>save\<close> gives \<open>neq\<close> back unchanged.
\<close>

theorem factory_neq_integral:
  "(RandomEvent stress fn duration n dsc = Inr e \<longrightarrow>
      neq e \<in> \<int> \<and>
      (sf_cycles self = 1 \<longrightarrow> of_int (math_ceil (sf_cycles self * neq e)) = neq e)) \<and>
   (SineEvent stress_1g load sweep_rate dsc' = Inr e' \<longrightarrow>
      neq e' \<in> \<int> \<and>
      (sf_cycles self = 1 \<longrightarrow> of_int (math_ceil (sf_cycles self * neq e')) = neq e'))"
  by (auto simp: RandomEvent_def SineEvent_def math_ceil_def Let_def split: sum.splits if_splits)

theorem factory_neq_integral_witness:
  "\<exists>e e'. RandomEvent 345 200 120 2 ''r'' = Inr e \<and> neq e \<in> \<int> \<and>
     of_int (math_ceil (sf_cycles (init ''example.spc'' 0 1 1) * neq e)) = neq e \<and>
     SineEvent 10 2 1 ''s'' = Inr e' \<and> neq e' \<in> \<int> \<and>
     of_int (math_ceil (sf_cycles (init ''example.spc'' 0 1 1) * neq e')) = neq e'"
proof -
  obtain e where e: "RandomEvent 345 200 120 2 ''r'' = Inr e"
    by (simp add: RandomEvent_def table_n_at_2)
  obtain e' where e': "SineEvent 10 2 1 ''s'' = Inr e'"
    by (simp add: SineEvent_def Let_def)
  have "sf_cycles (init ''example.spc'' 0 1 1) = 1" by (simp add: init_def)
  with factory_neq_integral [of 345 200 120 2 "''r''" e "init ''example.spc'' 0 1 1"
      10 2 1 "''s''" e'] e e'
  show ?thesis by blast
qed

subsection \<open>The interpolator\<close>

text \<open>
  On a table with a flat segment the interpolated value is the common value of the two
  bracketing points, and so is not strictly between them.
\<close>

theorem flat_segment_not_strictly_between:
  "linear_interpolation [(1, 5), (2, 5)] (3 / 2) = Inr 5 \<and> \<not> strictly_between 5 5 5"
  by (simp add: linear_interpolation_interp1d interp1d_def strictly_between_def)

text \<open>
  Claim C4, amended. For a table with distinct keys and at least two points,
  \<open>linear_interpolation\<close> returns the stored value at a key. At an argument strictly
  between two adjacent keys \<open>x0 < x1\<close> with values \<open>y0\<close> and \<open>y1\<close> it returns
  \<open>(y1 - y0) / (x1 - x0) * (argument - x0) + y0\<close>, which lies between \<open>y0\<close> and \<open>y1\<close>, and
  strictly between them when \<open>y0\<close> and \<open>y1\<close> differ.
\<close>

theorem linear_interpolation_in_range:
  "distinct (map fst t) \<and> 2 \<le> length t \<longrightarrow>
     ((k, v) \<in> set t \<longrightarrow> linear_interpolation t k = Inr v) \<and>
     ((x0, y0) \<in> set t \<and> (x1, y1) \<in> set t \<and> x0 < a \<and> a < x1 \<and>
      (\<forall>k'\<in>set (map fst t). \<not> (x0 < k' \<and> k' < x1)) \<longrightarrow>
        (\<exists>w. linear_interpolation t a = Inr w \<and>
           w = (y1 - y0) / (x1 - x0) * (a - x0) + y0 \<and>
           min y0 y1 \<le> w \<and> w \<le> max y0 y1 \<and>
           (y0 \<noteq> y1 \<longrightarrow> strictly_between y0 y1 w)))"
proof
  assume "distinct (map fst t) \<and> 2 \<le> length t"
  then have d: "distinct (map fst t)" and l: "2 \<le> length t" by simp_all
  let ?xs = "sort (map fst t)"
  let ?f = "\<lambda>k. the (map_of t k)"
  have xs: "2 \<le> length ?xs" "sorted ?xs" "distinct ?xs" "set ?xs = set (map fst t)"
    using d l by simp_all
  have val: "?f k' = v'" if "(k', v') \<in> set t" for k' v'
    using d that by simp
  have key: "linear_interpolation t k = Inr v" if "(k, v) \<in> set t"
  proof -
    from that have m: "k \<in> set ?xs" by force
    then have "hd ?xs \<le> k" "k \<le> last ?xs"
      using xs(2) by (simp_all add: sorted_hd_le sorted_le_last)
    then have "linear_interpolation t k = Inr (np_interp k ?xs (map ?f ?xs))"
      using xs by (simp add: linear_interpolation_interp1d interp1d_in_range)
    also have "np_interp k ?xs (map ?f ?xs) = ?f k"
      using xs m by (rule_tac np_interp_at_key) simp_all
    finally show ?thesis using val [OF that] by simp
  qed
  have seg: "\<exists>w. linear_interpolation t a = Inr w \<and>
           w = (y1 - y0) / (x1 - x0) * (a - x0) + y0 \<and>
           min y0 y1 \<le> w \<and> w \<le> max y0 y1 \<and>
           (y0 \<noteq> y1 \<longrightarrow> strictly_between y0 y1 w)"
    if h: "(x0, y0) \<in> set t" "(x1, y1) \<in> set t" "x0 < a" "a < x1"
      "\<forall>k'\<in>set (map fst t). \<not> (x0 < k' \<and> k' < x1)"
  proof -
    from h(1,2) have m: "x0 \<in> set ?xs" "x1 \<in> set ?xs" by force+
    then have "hd ?xs \<le> x0" "x1 \<le> last ?xs"
      using xs(2) by (simp_all add: sorted_hd_le sorted_le_last)
    with h(3,4) have "hd ?xs \<le> a" "a \<le> last ?xs" by simp_all
    then have "linear_interpolation t a = Inr (np_interp a ?xs (map ?f ?xs))"
      using xs by (simp add: linear_interpolation_interp1d interp1d_in_range)
    also have "np_interp a ?xs (map ?f ?xs) = (?f x1 - ?f x0) / (x1 - x0) * (a - x0) + ?f x0"
      using xs(2,3) m h(3,4) h(5) unfolding xs(4) [symmetric]
      by (rule np_interp_between)
    finally have "linear_interpolation t a = Inr ((y1 - y0) / (x1 - x0) * (a - x0) + y0)"
      using val [OF h(1)] val [OF h(2)] by simp
    then show ?thesis
      using segment_between [OF h(3,4), of y0 y1] by (simp add: strictly_between_def)
  qed
  from key seg show "((k, v) \<in> set t \<longrightarrow> linear_interpolation t k = Inr v) \<and>
     ((x0, y0) \<in> set t \<and> (x1, y1) \<in> set t \<and> x0 < a \<and> a < x1 \<and>
      (\<forall>k'\<in>set (map fst t). \<not> (x0 < k' \<and> k' < x1)) \<longrightarrow>
        (\<exists>w. linear_interpolation t a = Inr w \<and>
           w = (y1 - y0) / (x1 - x0) * (a - x0) + y0 \<and>
           min y0 y1 \<le> w \<and> w \<le> max y0 y1 \<and>
           (y0 \<noteq> y1 \<longrightarrow> strictly_between y0 y1 w)))"
    by blast
qed

theorem linear_interpolation_in_range_witness:
  "linear_interpolation table_n 3 = Inr (139 / 1000) \<and>
   (\<exists>w. linear_interpolation table_n (5 / 2) = Inr w \<and> w = 361 / 2000 \<and>
      strictly_between (222 / 1000) (139 / 1000) w)"
proof -
  have t: "distinct (map fst table_n) \<and> 2 \<le> length table_n" by (simp add: table_n_def)
  have k: "(3, 139 / 1000) \<in> set table_n" by (simp add: table_n_def)
  have s: "(2, 222 / 1000) \<in> set table_n \<and> (3, 139 / 1000) \<in> set table_n \<and>
      (2::real) < 5 / 2 \<and> (5 / 2 :: real) < 3 \<and>
      (\<forall>k'\<in>set (map fst table_n). \<not> (2 < k' \<and> k' < 3))"
    by (simp add: table_n_def)
  from linear_interpolation_in_range
    [of table_n 3 "139 / 1000" 2 "222 / 1000" 3 "139 / 1000" "5 / 2"] t k s
  show ?thesis by auto
qed

text \<open>
  Claim C5. For a table that has keys, an argument strictly below the smallest key or
  strictly above the largest key makes \<open>linear_interpolation\<close> fail with ValueError; and
  \<open>RandomEvent\<close> fails with the same error for every \<open>n\<close> outside \<open>[2, 6]\<close>.
\<close>

theorem out_of_range_fails:
  "(t \<noteq> [] \<and> (argument < Min (set (map fst t)) \<or> Max (set (map fst t)) < argument) \<longrightarrow>
      linear_interpolation t argument = Inl ValueError)
   \<and> (n < 2 \<or> 6 < n \<longrightarrow> RandomEvent stress fn duration n dsc = Inl ValueError)"
proof -
  have a: "linear_interpolation t argument = Inl ValueError"
    if "t \<noteq> []" "argument < Min (set (map fst t)) \<or> Max (set (map fst t)) < argument"
  proof -
    from that(1) have "map fst t \<noteq> []" by simp
    then have "hd (sort (map fst t)) = Min (set (map fst t))"
      "last (sort (map fst t)) = Max (set (map fst t))"
      by (rule hd_sort_Min, rule last_sort_Max)
    with that(2) show ?thesis
      by (auto simp: linear_interpolation_interp1d interp1d_def)
  qed
  have b: "RandomEvent stress fn duration n dsc = Inl ValueError" if "n < 2 \<or> 6 < n"
  proof -
    have "linear_interpolation table_n n = Inl ValueError"
      using that by (auto simp: linear_interpolation_interp1d interp1d_def table_n_def)
    then show ?thesis by (simp add: RandomEvent_def)
  qed
  from a b show ?thesis by blast
qed

theorem out_of_range_fails_witness:
  "table_n \<noteq> [] \<and> Max (set (map fst table_n)) < 7 \<and>
   linear_interpolation table_n 7 = Inl ValueError \<and>
   RandomEvent 345 200 120 (3 / 2) ''r'' = Inl ValueError"
proof -
  have h: "table_n \<noteq> [] \<and> Max (set (map fst table_n)) < 7" by (simp add: table_n_def)
  have "(3 / 2 :: real) < 2" by simp
  with h out_of_range_fails [of table_n 7 "3 / 2" 345 200 120 "''r''"] show ?thesis by blast
qed

subsection \<open>The collector\<close>






text \<open>
  Claim C9. A successful \<open>save\<close> leaves the collector as it was and replaces the contents of
  the target file by a text that depends on the collector alone. A second \<open>save\<close> right after
  it, verbose or not, succeeds too, leaves the collector as it was and leaves every file, the
  target among them, with the contents the first one gave it.
\<close>

theorem save_twice_same_file:
  "save verbose st = Inr st1 \<longrightarrow>
     spectrum st1 = spectrum st \<and>
     files st1 = (files st)(filename (spectrum st) \<mapsto>
       unlines (''max min cycle format'' # map (data_line (spectrum st)) (events (spectrum st)))) \<and>
     (\<exists>st2. save verbose' st1 = Inr st2 \<and> spectrum st2 = spectrum st \<and> files st2 = files st1)"
proof
  assume s: "save verbose st = Inr st1"
  then have w: "writable st (filename (spectrum st))"
    using save_unwritable [of st verbose] by auto
  from s save_closed [OF w, of verbose]
  have st1: "st1 = st\<lparr>files := (files st)(filename (spectrum st) \<mapsto>
        unlines (''max min cycle format'' # map (data_line (spectrum st)) (events (spectrum st)))),
      stdout := stdout st @ (if verbose then ''=============='' #
        map (\<lambda>e. ljust 26 (data_line (spectrum st) e) @ '' | '' @ desc e) (events (spectrum st))
        else [])\<rparr>"
    by simp
  have w1: "writable st1 (filename (spectrum st1))" using w st1 by simp
  show "spectrum st1 = spectrum st \<and>
     files st1 = (files st)(filename (spectrum st) \<mapsto>
       unlines (''max min cycle format'' # map (data_line (spectrum st)) (events (spectrum st)))) \<and>
     (\<exists>st2. save verbose' st1 = Inr st2 \<and> spectrum st2 = spectrum st \<and> files st2 = files st1)"
    using save_closed [OF w1, of verbose'] st1 by simp
qed

theorem save_twice_same_file_witness:
  "\<exists>st1 st2.
     save True (fresh_state ((init ''example.spc'' 10 1 4)\<lparr>events := two_events\<rparr>)) = Inr st1 \<and>
     save True st1 = Inr st2 \<and>
     files st2 = files st1 \<and>
     files st1 ''example.spc'' =
       Some ''max min cycle format\<newline>11.00  9.00  10\<newline>12.00  7.00  32\<newline>''"
proof -
  let ?st = "fresh_state ((init ''example.spc'' 10 1 4)\<lparr>events := two_events\<rparr>)"
  have w: "writable ?st (filename (spectrum ?st))" by (simp add: fresh_state_def)
  from save_closed [OF w, of True] obtain st1 where st1: "save True ?st = Inr st1" by simp
  with save_twice_same_file [of True ?st st1 True] obtain st2 where
    "save True st1 = Inr st2" "files st2 = files st1"
    "files st1 = (files ?st)(filename (spectrum ?st) \<mapsto>
       unlines (''max min cycle format'' # map (data_line (spectrum ?st)) (events (spectrum ?st))))"
    by blast
  moreover have "filename (spectrum ?st) = ''example.spc''" by (simp add: fresh_state_def init_def)
  moreover have "unlines (''max min cycle format'' # map (data_line (spectrum ?st)) (events (spectrum ?st)))
      = ''max min cycle format\<newline>11.00  9.00  10\<newline>12.00  7.00  32\<newline>''"
    by (simp add: fresh_state_def init_def two_events_def unlines_def
      data_line_def format_4_2f_fixed2 fixed2_def round_half_even_def
      str_int_def str_nat.simps digit_char_def)
  ultimately show ?thesis using st1 by auto
qed

end
